theory Spec2Isabelle
  imports Complex_Main
begin

section \<open>Strings and the regular expressions of the analyzer\<close>

text \<open>
  A Python \<open>str\<close> is modelled as a \<open>string\<close>; every \<open>char\<close> stands for the code point
  of the same number (0 to 255).  Code points above 255 are outside the model.
  Exceptions are values of the type \<open>exn\<close>; \<open>DatabaseError\<close> stands for
  \<open>sqlite3.DatabaseError\<close> and its subclasses, \<open>OtherError\<close> for every other exception
  a database call may raise.
\<close>

datatype exn =
    DatabaseError string
  | OtherError string
  | IndexError
  | ZeroDivisionError
  | StopIteration
  | TypeError

fun str_exn :: "exn \<Rightarrow> string" where
  "str_exn (DatabaseError m) = m"
| "str_exn (OtherError m) = m"
| "str_exn IndexError = ''string index out of range''"
| "str_exn ZeroDivisionError = ''float division by zero''"
| "str_exn StopIteration = ''''"
| "str_exn TypeError = ''unsupported operand''"

text \<open>\<open>str.isspace\<close>, which is also the class \<open>\s\<close> of \<open>re\<close>, on code points below 256.\<close>

definition isspace :: "char \<Rightarrow> bool" where
  "isspace c =
     (let n = (of_char c :: nat)
      in (9 \<le> n \<and> n \<le> 13) \<or> (28 \<le> n \<and> n \<le> 32) \<or> n = 133 \<or> n = 160)"

text \<open>The class \<open>\w\<close> of \<open>re\<close> (alphanumeric or underscore) on code points below 256.\<close>

definition isword :: "char \<Rightarrow> bool" where
  "isword c =
     (let n = (of_char c :: nat)
      in (48 \<le> n \<and> n \<le> 57) \<or> (65 \<le> n \<and> n \<le> 90) \<or> n = 95 \<or> (97 \<le> n \<and> n \<le> 122)
         \<or> n = 170 \<or> n = 178 \<or> n = 179 \<or> n = 181 \<or> n = 185 \<or> n = 186
         \<or> (188 \<le> n \<and> n \<le> 190) \<or> (192 \<le> n \<and> n \<le> 214) \<or> (216 \<le> n \<and> n \<le> 246)
         \<or> 248 \<le> n)"

text \<open>Upper case of an ASCII letter; used to match a keyword under \<open>re.IGNORECASE\<close>.\<close>

definition ascii_upper :: "char \<Rightarrow> char" where
  "ascii_upper c =
     (let n = (of_char c :: nat) in if 97 \<le> n \<and> n \<le> 122 then char_of (n - 32) else c)"

text \<open>\<open>ci_prefix kw s\<close>: the upper-case keyword \<open>kw\<close> matches at the head of \<open>s\<close>,
  letter case ignored.\<close>

fun ci_prefix :: "string \<Rightarrow> string \<Rightarrow> bool" where
  "ci_prefix [] s = True"
| "ci_prefix (p # ps) [] = False"
| "ci_prefix (p # ps) (c # cs) = (ascii_upper c = p \<and> ci_prefix ps cs)"

text \<open>\<open>str.strip()\<close> and \<open>str.rstrip(';')\<close>.\<close>

definition strip :: "string \<Rightarrow> string" where
  "strip s = rev (dropWhile isspace (rev (dropWhile isspace s)))"

definition rstrip_semicolon :: "string \<Rightarrow> string" where
  "rstrip_semicolon s = rev (dropWhile (\<lambda>c. c = CHR '';'') (rev s))"

text \<open>
  \<open>pattern.finditer(sql)\<close>: the matches are found from left to right and do not overlap.
  A matcher gets the character before the position (for \<open>\b\<close>) and the rest of the text,
  and returns the length of the match at that position.  The result lists the
  \<open>(start, end)\<close> of every match.  After an empty match the scan moves one character on.
\<close>

function finditer ::
  "(char option \<Rightarrow> string \<Rightarrow> nat option) \<Rightarrow> char option \<Rightarrow> nat \<Rightarrow> string \<Rightarrow> (nat \<times> nat) list"
where
  "finditer m prev i [] = []"
| "finditer m prev i (c # cs) =
     (case m prev (c # cs) of
        None \<Rightarrow> finditer m (Some c) (Suc i) cs
      | Some n \<Rightarrow>
          (i, i + n) #
            finditer m (Some (last (take (max 1 n) (c # cs)))) (i + max 1 n)
              (drop (max 1 n) (c # cs)))"
  by pat_completeness auto
termination
  by (relation "measure (\<lambda>(m, prev, i, s). length s)") auto

text \<open>The pattern \<open>\(\s*SELECT\<close> of \<open>extract_subqueries\<close>, case ignored.\<close>

definition match_open_select :: "char option \<Rightarrow> string \<Rightarrow> nat option" where
  "match_open_select prev s =
     (case s of
        [] \<Rightarrow> None
      | c # cs \<Rightarrow>
          if c = CHR ''('' \<and> ci_prefix ''SELECT'' (dropWhile isspace cs)
          then Some (1 + length (takeWhile isspace cs) + 6)
          else None)"

subsection \<open>\<open>extract_subqueries\<close>\<close>

text \<open>
  The inner \<open>while\<close> loop: \<open>close_scan depth i rest\<close> runs from index \<open>i\<close>, \<open>rest\<close> being
  \<open>sql[i:]\<close>, and returns the index at which \<open>depth\<close> comes back to 0 (the \<open>break\<close>), or
  \<open>None\<close> when the text ends first.
\<close>

fun close_scan :: "int \<Rightarrow> nat \<Rightarrow> string \<Rightarrow> nat option" where
  "close_scan depth i [] = None"
| "close_scan depth i (c # cs) =
     (if c = CHR ''('' then close_scan (depth + 1) (Suc i) cs
      else if c = CHR '')'' then
        (if depth - 1 = 0 then Some i else close_scan (depth - 1) (Suc i) cs)
      else close_scan depth (Suc i) cs)"

definition fragment_at :: "string \<Rightarrow> nat \<Rightarrow> string list" where
  "fragment_at sql start =
     (case close_scan 0 start (drop start sql) of
        None \<Rightarrow> []
      | Some i \<Rightarrow> [take (Suc i - start) (drop start sql)])"

definition extract_subqueries :: "string \<Rightarrow> string list" where
  "extract_subqueries sql =
     concat (map (\<lambda>(start, e). fragment_at sql start) (finditer match_open_select None 0 sql))"

text \<open>
  Lines 338 to 340 of \<open>analyze_query\<close>: \<open>ssql = sub.strip()\<close>, then the outer parentheses
  are removed when both are there.  \<open>ssql[0]\<close> raises \<open>IndexError\<close> on the empty string.
\<close>

definition strip_parens :: "string \<Rightarrow> exn + string" where
  "strip_parens sub =
     (let ssql = strip sub
      in if ssql = [] then Inl IndexError
         else if hd ssql = CHR ''('' \<and> last ssql = CHR '')'' then Inr (butlast (tl ssql))
         else Inr ssql)"

section \<open>The database and the run-time system\<close>

text \<open>
  Both programs talk to SQLite through a connection \<open>conn\<close> and read a clock.  The model
  threads a world state \<open>'w\<close> through every call and takes the operations as a record:
  \<^item> \<open>execute conn sql w\<close> is \<open>cur.execute(sql)\<close> followed by \<open>cur.fetchall()\<close>: the rows, or
    the exception raised, and the world afterwards;
  \<^item> \<open>perf_counter\<close> and \<open>time_time\<close> are \<open>time.perf_counter()\<close> and \<open>time.time()\<close>;
    a duration is a real number;
  \<^item> \<open>row_str\<close> is \<open>str(row)\<close>, \<open>row_item1\<close> is \<open>row[1]\<close> (which may raise);
  \<^item> \<open>set_order xs\<close> is the order in which Python iterates over the set built from the
    members \<open>xs\<close>; it is the hash order of the process, which the source does not fix.
\<close>

record ('w, 'r) env =
  execute :: "string \<Rightarrow> 'w \<Rightarrow> (exn + 'r list) \<times> 'w"
  perf_counter :: "'w \<Rightarrow> real \<times> 'w"
  time_time :: "'w \<Rightarrow> real \<times> 'w"
  row_str :: "'r \<Rightarrow> string"
  row_item1 :: "'r \<Rightarrow> exn + string"
  set_order :: "string list \<Rightarrow> string list"

subsection \<open>\<open>time_query\<close> (sql_analyzer.py)\<close>

text \<open>The second component of the pair \<open>time_query\<close> returns: the error text, or
  \<open>results\<close>, which is \<open>None\<close> when the loop has not run.\<close>

datatype 'r payload = ErrorText string | Results "'r list option"

text \<open>The loop \<open>for _ in range(iterations)\<close> inside the \<open>try\<close>: it stops at the first
  exception.\<close>

fun execute_loop ::
  "('w, 'r) env \<Rightarrow> string \<Rightarrow> nat \<Rightarrow> 'r list option \<Rightarrow> 'w \<Rightarrow> (exn + 'r list option) \<times> 'w"
where
  "execute_loop conn sql 0 results w = (Inr results, w)"
| "execute_loop conn sql (Suc n) results w =
     (case execute conn sql w of
        (Inl e, w') \<Rightarrow> (Inl e, w')
      | (Inr rows, w') \<Rightarrow> execute_loop conn sql n (Some rows) w')"

text \<open>Python's \<open>/\<close> on floats raises \<open>ZeroDivisionError\<close> when the divisor is zero.\<close>

definition truediv :: "real \<Rightarrow> real \<Rightarrow> exn + real" where
  "truediv x y = (if y = 0 then Inl ZeroDivisionError else Inr (x / y))"

definition warm_up :: "('w, 'r) env \<Rightarrow> string \<Rightarrow> bool \<Rightarrow> 'w \<Rightarrow> 'w" where
  "warm_up conn sql warmup w = (if warmup then snd (execute conn sql w) else w)"

definition time_query ::
  "('w, 'r) env \<Rightarrow> string \<Rightarrow> bool \<Rightarrow> int \<Rightarrow> 'w \<Rightarrow> (exn + real option \<times> 'r payload) \<times> 'w"
where
  "time_query conn sql warmup iterations w =
     (let w1 = warm_up conn sql warmup w;
          (start, w2) = perf_counter conn w1
      in case execute_loop conn sql (nat iterations) None w2 of
           (Inl e, w3) \<Rightarrow> (Inr (None, ErrorText (str_exn e)), w3)
         | (Inr results, w3) \<Rightarrow>
             (let (stop, w4) = perf_counter conn w3;
                  elapsed = stop - start
              in case truediv elapsed (of_int (max 1 iterations)) of
                   Inl z \<Rightarrow> (Inl z, w4)
                 | Inr per_iter \<Rightarrow> (Inr (Some per_iter, Results results), w4)))"

subsection \<open>\<open>explain_query_plan\<close> (sql_analyzer.py)\<close>

text \<open>The result holds the lines printed and the rows returned; an exception that is
  not a \<open>sqlite3.DatabaseError\<close> is not caught.\<close>

definition explain_query_plan ::
  "('w, 'r) env \<Rightarrow> string \<Rightarrow> 'w \<Rightarrow> (exn + string list \<times> 'r list) \<times> 'w"
where
  "explain_query_plan conn sql w =
     (case execute conn (''EXPLAIN QUERY PLAN '' @ sql) w of
        (Inr rows, w') \<Rightarrow> (Inr ([], rows), w')
      | (Inl (DatabaseError m), w') \<Rightarrow> (Inr ([''EXPLAIN failed: '' @ m], []), w')
      | (Inl e, w') \<Rightarrow> (Inl e, w'))"

subsection \<open>The helpers of sql_gui_analyzer.py\<close>

text \<open>The GUI's \<open>explain_query\<close> returns the plan rows or, on any exception, the single
  pair \<open>("EXPLAIN FAILED", str(e))\<close>.\<close>

datatype 'r explain_row = PlanRow 'r | TextPair string string

definition gui_explain_query :: "('w, 'r) env \<Rightarrow> string \<Rightarrow> 'w \<Rightarrow> 'r explain_row list \<times> 'w" where
  "gui_explain_query conn sql w =
     (case execute conn (''EXPLAIN QUERY PLAN '' @ sql) w of
        (Inr rows, w') \<Rightarrow> (map PlanRow rows, w')
      | (Inl e, w') \<Rightarrow> ([TextPair ''EXPLAIN FAILED'' (str_exn e)], w'))"

text \<open>The GUI's \<open>time_query(conn, sql)\<close>: one execution between two readings of
  \<open>time.time()\<close>; it returns \<open>(duration, None)\<close> or \<open>(None, str(e))\<close>.\<close>

definition gui_time_query ::
  "('w, 'r) env \<Rightarrow> string \<Rightarrow> 'w \<Rightarrow> (real option \<times> string option) \<times> 'w"
where
  "gui_time_query conn sql w =
     (let (start, w1) = time_time conn w
      in case execute conn sql w1 of
           (Inl e, w2) \<Rightarrow> ((None, Some (str_exn e)), w2)
         | (Inr rows, w2) \<Rightarrow>
             (let (stop, w3) = time_time conn w2 in ((Some (stop - start), None), w3)))"

text \<open>\<open>table_scan_time\<close> and \<open>join_cost\<close> return the number 0 on any exception.\<close>

definition gui_timed :: "('w, 'r) env \<Rightarrow> string \<Rightarrow> 'w \<Rightarrow> real \<times> 'w" where
  "gui_timed conn sql w =
     (let (start, w1) = time_time conn w
      in case execute conn sql w1 of
           (Inl e, w2) \<Rightarrow> (0, w2)
         | (Inr rows, w2) \<Rightarrow> (let (stop, w3) = time_time conn w2 in (stop - start, w3)))"

definition table_scan_time :: "('w, 'r) env \<Rightarrow> string \<Rightarrow> 'w \<Rightarrow> real \<times> 'w" where
  "table_scan_time conn table w = gui_timed conn (''SELECT COUNT(*) FROM '' @ table) w"

definition join_cost_sql :: "string \<Rightarrow> string \<Rightarrow> string" where
  "join_cost_sql t1 t2 = ''SELECT COUNT(*) FROM '' @ t1 @ '', '' @ t2 @ '' LIMIT 2000''"

definition join_cost :: "('w, 'r) env \<Rightarrow> string \<Rightarrow> string \<Rightarrow> 'w \<Rightarrow> real \<times> 'w" where
  "join_cost conn t1 t2 w = gui_timed conn (join_cost_sql t1 t2) w"

text \<open>Two notions to state what \<open>time_query\<close> does: the world after one execution of a
  statement, and whether that execution raises.\<close>

definition after_execute :: "('w, 'r) env \<Rightarrow> string \<Rightarrow> 'w \<Rightarrow> 'w" where
  "after_execute conn sql w = snd (execute conn sql w)"

definition succeeds :: "('w, 'r) env \<Rightarrow> string \<Rightarrow> 'w \<Rightarrow> bool" where
  "succeeds conn sql w = (case fst (execute conn sql w) of Inl e \<Rightarrow> False | Inr rows \<Rightarrow> True)"

section \<open>A sample database\<close>

text \<open>
  A small connection on which the model runs: three tables, a clock that counts ticks
  (the world is the tick count), rows that are lists of cell texts.  An execution takes
  one tick and one more for each row it returns; reading the clock takes one tick.
  \<open>PRAGMA table_info\<close> of an unknown table returns no rows, as in SQLite; every other
  unknown statement raises a \<open>DatabaseError\<close>.
\<close>

definition sample_tables :: "(string \<times> string list list) list" where
  "sample_tables =
     [(''PRAGMA table_info(customers)'',
         [[''0'', ''customer_id''], [''1'', ''name''], [''2'', ''city'']]),
      (''PRAGMA table_info(orders)'',
         [[''0'', ''order_id''], [''1'', ''customer_id''], [''2'', ''total'']]),
      (''PRAGMA table_info(products)'',
         [[''0'', ''product_id''], [''1'', ''price'']]),
      (''SELECT COUNT(*) FROM customers'', [[''200'']]),
      (''SELECT COUNT(*) FROM orders'', [[''600'']]),
      (''SELECT COUNT(*) FROM products'', [[''500'']]),
      (''SELECT name FROM customers'', [[''Cust_1''], [''Cust_2'']])]"

definition sample_execute :: "string \<Rightarrow> nat \<Rightarrow> (exn + string list list) \<times> nat" where
  "sample_execute sql w =
     (case map_of sample_tables sql of
        Some rows \<Rightarrow> (Inr rows, w + 1 + length rows)
      | None \<Rightarrow>
          if take 18 sql = ''PRAGMA table_info('' then (Inr [], w + 1)
          else (Inl (DatabaseError ''no such table or column''), w + 1))"

definition sample_conn :: "(nat, string list) env" where
  "sample_conn =
     \<lparr> execute = sample_execute,
       perf_counter = (\<lambda>w. (real w, Suc w)),
       time_time = (\<lambda>w. (real w, Suc w)),
       row_str = concat,
       row_item1 = (\<lambda>r. case r of a # b # rest \<Rightarrow> Inr b | _ \<Rightarrow> Inl IndexError),
       set_order = remdups \<rparr>"

section \<open>Properties of subquery extraction\<close>

lemma match_open_select_Some:
  "match_open_select p s = Some n \<Longrightarrow> s \<noteq> [] \<and> hd s = CHR ''('' \<and> 7 \<le> n"
  by (auto simp: match_open_select_def split: list.splits if_splits)

lemma finditer_open_start:
  "(st, en) \<in> set (finditer match_open_select p i s) \<Longrightarrow>
     i \<le> st \<and> st - i < length s \<and> s ! (st - i) = CHR ''(''"
proof (induction "length s" arbitrary: s p i rule: less_induct)
  case less
  show ?case
  proof (cases s)
    case Nil
    with less.prems show ?thesis by simp
  next
    case (Cons c cs)
    show ?thesis
    proof (cases "match_open_select p (c # cs)")
      case None
      with less.prems Cons
      have mem: "(st, en) \<in> set (finditer match_open_select (Some c) (Suc i) cs)" by simp
      have "length cs < length s" using Cons by simp
      from less.hyps[OF this mem]
      have "Suc i \<le> st \<and> st - Suc i < length cs \<and> cs ! (st - Suc i) = CHR ''(''" .
      then have a: "Suc i \<le> st" "st - Suc i < length cs" "cs ! (st - Suc i) = CHR ''(''"
        by auto
      from a(1) have "st - i = Suc (st - Suc i)" by simp
      with a show ?thesis using Cons by simp
    next
      case (Some n)
      from match_open_select_Some[OF Some] have c: "c = CHR ''(''" and n: "7 \<le> n" by auto
      from less.prems Cons Some
      consider (here) "st = i"
        | (later) "(st, en) \<in> set (finditer match_open_select
             (Some (last (take (max 1 n) (c # cs)))) (i + max 1 n) (drop (max 1 n) (c # cs)))"
        by auto
      then show ?thesis
      proof cases
        case here
        then show ?thesis using Cons c by simp
      next
        case later
        have "length (drop (max 1 n) (c # cs)) < length s" using Cons by simp
        from less.hyps[OF this later]
        have h: "i + max 1 n \<le> st"
          "st - (i + max 1 n) < length (drop (max 1 n) (c # cs))"
          "drop (max 1 n) (c # cs) ! (st - (i + max 1 n)) = CHR ''(''" by auto
        from h(2) have le: "max 1 n + (st - (i + max 1 n)) < length (c # cs)" by simp
        have idx: "max 1 n + (st - (i + max 1 n)) = st - i" using h(1) by simp
        have "(c # cs) ! (max 1 n + (st - (i + max 1 n))) = CHR ''(''"
          using h(3) le by (simp only: nth_drop[symmetric] less_imp_le_nat)
        then show ?thesis using h(1) le idx Cons by simp
      qed
    qed
  qed
qed

lemma close_scan_ge: "close_scan d i s = Some j \<Longrightarrow> i \<le> j"
proof (induction s arbitrary: d i)
  case Nil
  then show ?case by simp
next
  case (Cons c cs)
  then show ?case by (fastforce split: if_splits dest: Suc_leD)
qed

lemma close_scan_Some:
  "close_scan d i s = Some j \<Longrightarrow> i \<le> j \<and> j - i < length s \<and> s ! (j - i) = CHR '')''"
proof (induction s arbitrary: d i)
  case Nil
  then show ?case by simp
next
  case (Cons c cs)
  show ?case
  proof (cases "j = i")
    case True
    with Cons.prems show ?thesis
      by (auto split: if_splits dest!: close_scan_ge)
  next
    case False
    with Cons.prems obtain d' where d': "close_scan d' (Suc i) cs = Some j"
      by (auto split: if_splits)
    from Cons.IH[OF d']
    have a: "Suc i \<le> j" "j - Suc i < length cs" "cs ! (j - Suc i) = CHR '')''" by auto
    from a(1) have "j - i = Suc (j - Suc i)" by simp
    with a show ?thesis by simp
  qed
qed

lemma strip_id:
  assumes "s \<noteq> []" "\<not> isspace (hd s)" "\<not> isspace (last s)"
  shows "strip s = s"
proof -
  from assms have a: "dropWhile isspace s = s" by (cases s) auto
  from assms have "rev s \<noteq> []" "\<not> isspace (hd (rev s))" by (auto simp: hd_rev)
  then have "dropWhile isspace (rev s) = rev s" by (cases "rev s") auto
  with a show ?thesis by (simp add: strip_def)
qed

lemma fragment_shape:
  assumes "f \<in> set (extract_subqueries sql)"
  shows "f \<noteq> [] \<and> hd f = CHR ''('' \<and> last f = CHR '')''"
proof -
  from assms obtain st en where
    mem: "(st, en) \<in> set (finditer match_open_select None 0 sql)" and
    f: "f \<in> set (fragment_at sql st)"
    by (auto simp: extract_subqueries_def)
  from finditer_open_start[OF mem] have st: "st < length sql" "sql ! st = CHR ''(''" by auto
  from f obtain j where j: "close_scan 0 st (drop st sql) = Some j"
    and fj: "f = take (Suc j - st) (drop st sql)"
    by (cases "close_scan 0 st (drop st sql)") (auto simp: fragment_at_def)
  from close_scan_Some[OF j] have c: "st \<le> j" "j - st < length (drop st sql)"
    "drop st sql ! (j - st) = CHR '')''" by auto
  have len: "length f = Suc (j - st)" using fj c by (simp add: Suc_diff_le)
  then have ne: "f \<noteq> []" by auto
  have "hd f = f ! 0" using ne by (simp add: hd_conv_nth)
  also have "\<dots> = drop st sql ! 0" using fj c by simp
  also have "\<dots> = CHR ''(''" using st by simp
  finally have h: "hd f = CHR ''(''" .
  have "last f = f ! (j - st)" using ne len by (simp add: last_conv_nth)
  also have "\<dots> = drop st sql ! (j - st)" using fj c by (simp add: Suc_diff_le)
  also have "\<dots> = CHR '')''" using c by simp
  finally show ?thesis using ne h by simp
qed

text \<open>
  C9.  Every fragment that \<open>extract_subqueries\<close> returns is non-empty, begins with an
  opening and ends with a closing parenthesis.  So the stripping step of
  \<open>analyze_query\<close> never indexes an empty string (it does not raise \<open>IndexError\<close>) and
  removes exactly the outer pair of parentheses: the fragment is \<open>(\<close>, the stripped
  text, \<open>)\<close>.
\<close>

theorem fragments_parenthesised:
  "\<forall>f \<in> set (extract_subqueries sql).
     f \<noteq> [] \<and> hd f = CHR ''('' \<and> last f = CHR '')'' \<and>
     f = CHR ''('' # butlast (tl f) @ [CHR '')''] \<and>
     strip_parens f = Inr (butlast (tl f))"
proof
  fix f assume "f \<in> set (extract_subqueries sql)"
  from fragment_shape[OF this] have ne: "f \<noteq> []" and h: "hd f = CHR ''(''"
    and l: "last f = CHR '')''" by auto
  have sp: "strip f = f"
    using ne h l by (intro strip_id) (simp_all add: isspace_def)
  from ne h obtain r where r: "f = CHR ''('' # r" by (cases f) auto
  with l have rne: "r \<noteq> []" by (cases r) auto
  with r l have "last r = CHR '')''" by simp
  with rne have "r = butlast r @ [CHR '')'']" by (metis append_butlast_last_id)
  with r have shape: "f = CHR ''('' # butlast (tl f) @ [CHR '')'']" by simp
  have "strip_parens f = Inr (butlast (tl f))"
    using ne h l sp by (simp add: strip_parens_def)
  with ne h l shape show "f \<noteq> [] \<and> hd f = CHR ''('' \<and> last f = CHR '')'' \<and>
     f = CHR ''('' # butlast (tl f) @ [CHR '')''] \<and>
     strip_parens f = Inr (butlast (tl f))" by simp
qed

theorem fragments_parenthesised_witness:
  "extract_subqueries ''SELECT a FROM (SELECT 1)'' = [''(SELECT 1)''] \<and>
   strip_parens ''(SELECT 1)'' = Inr ''SELECT 1''"
proof -
  have e: "extract_subqueries ''SELECT a FROM (SELECT 1)'' = [''(SELECT 1)'']"
    by code_simp
  then have "''(SELECT 1)'' \<in> set (extract_subqueries ''SELECT a FROM (SELECT 1)'')" by simp
  with fragments_parenthesised[of "''SELECT a FROM (SELECT 1)''"]
  have "strip_parens ''(SELECT 1)'' = Inr (butlast (tl ''(SELECT 1)''))" by blast
  with e show ?thesis by simp
qed

section \<open>Properties of the probe runner\<close>

lemma execute_loop_ok:
  "(\<And>k. k < n \<Longrightarrow> succeeds conn sql ((after_execute conn sql ^^ k) w)) \<Longrightarrow>
   execute_loop conn sql n results w =
     (Inr (if n = 0 then results
           else Some (projr (fst (execute conn sql ((after_execute conn sql ^^ (n - 1)) w))))),
      (after_execute conn sql ^^ n) w)"
proof (induction n arbitrary: results w)
  case 0
  then show ?case by simp
next
  case (Suc n)
  from Suc.prems[of 0] obtain rows w' where ex: "execute conn sql w = (Inr rows, w')"
    by (cases "execute conn sql w") (auto simp: succeeds_def split: sum.splits)
  then have w': "after_execute conn sql w = w'" by (simp add: after_execute_def)
  have "\<And>k. k < n \<Longrightarrow> succeeds conn sql ((after_execute conn sql ^^ k) w')"
    using Suc.prems[of "Suc _"] w' by (simp add: funpow_swap1)
  from Suc.IH[OF this, where results = "Some rows"] ex w' show ?case
    by (cases n) (simp_all add: funpow_swap1)
qed

lemma execute_loop_fail:
  "k < n \<Longrightarrow> (\<And>j. j < k \<Longrightarrow> succeeds conn sql ((after_execute conn sql ^^ j) w)) \<Longrightarrow>
   fst (execute conn sql ((after_execute conn sql ^^ k) w)) = Inl e \<Longrightarrow>
   execute_loop conn sql n results w = (Inl e, (after_execute conn sql ^^ Suc k) w)"
proof (induction n arbitrary: results w k)
  case 0
  then show ?case by simp
next
  case (Suc n)
  show ?case
  proof (cases k)
    case 0
    with Suc.prems(3) show ?thesis
      by (cases "execute conn sql w") (auto simp: after_execute_def)
  next
    case (Suc k')
    from Suc.prems(2)[of 0] Suc obtain rows w' where ex: "execute conn sql w = (Inr rows, w')"
      by (cases "execute conn sql w") (auto simp: succeeds_def split: sum.splits)
    then have w': "after_execute conn sql w = w'" by (simp add: after_execute_def)
    have a: "k' < n" using Suc Suc.prems(1) by simp
    have b: "\<And>j. j < k' \<Longrightarrow> succeeds conn sql ((after_execute conn sql ^^ j) w')"
      using Suc.prems(2)[of "Suc _"] Suc w' by (simp add: funpow_swap1)
    have c: "fst (execute conn sql ((after_execute conn sql ^^ k') w')) = Inl e"
      using Suc.prems(3) Suc w' by (simp add: funpow_swap1)
    from Suc.IH[OF a b c, where results = "Some rows"] ex w' Suc show ?thesis
      by (simp add: funpow_swap1)
  qed
qed

lemma max_one_nonzero: "(of_int (max 1 (i::int)) :: real) \<noteq> 0"
  by (simp add: max_def)

lemma time_query_total: "\<exists>r w'. time_query conn sql warmup iterations w = (Inr r, w')"
  by (auto simp: time_query_def truediv_def max_one_nonzero Let_def split: prod.splits sum.splits)

text \<open>
  C7, as amended.  With \<open>warmup\<close> set the statement is first executed once and what it
  returns or raises is dropped.  Then, the clock being read before and after, it is
  executed \<open>nat iterations\<close> times (no time for \<open>iterations \<le> 0\<close>).  When every
  execution succeeds the duration returned is the elapsed time divided by
  \<open>max 1 iterations\<close>, which is \<open>iterations\<close> from 1 on, with the rows of the last
  execution; at the first execution that raises, the result is a null duration with
  the text of the exception.  The GUI's \<open>time_query\<close> has neither flag nor count: it
  runs the statement once between two readings of \<open>time.time()\<close> and returns the
  duration with \<open>None\<close>, or a null duration with the error text.
\<close>

theorem time_query_contract:
  "warm_up conn sql True w = after_execute conn sql w \<and> warm_up conn sql False w = w \<and>
   (\<forall>start w2 stop w4.
      perf_counter conn (warm_up conn sql warmup w) = (start, w2) \<longrightarrow>
      (\<forall>k < nat iterations. succeeds conn sql ((after_execute conn sql ^^ k) w2)) \<longrightarrow>
      perf_counter conn ((after_execute conn sql ^^ nat iterations) w2) = (stop, w4) \<longrightarrow>
      time_query conn sql warmup iterations w =
        (Inr (Some ((stop - start) / of_int (max 1 iterations)),
              Results (if nat iterations = 0 then None
                 else Some (projr (fst (execute conn sql
                        ((after_execute conn sql ^^ (nat iterations - 1)) w2)))))), w4)) \<and>
   (\<forall>start w2 k e.
      perf_counter conn (warm_up conn sql warmup w) = (start, w2) \<longrightarrow>
      k < nat iterations \<longrightarrow>
      (\<forall>j < k. succeeds conn sql ((after_execute conn sql ^^ j) w2)) \<longrightarrow>
      fst (execute conn sql ((after_execute conn sql ^^ k) w2)) = Inl e \<longrightarrow>
      time_query conn sql warmup iterations w =
        (Inr (None, ErrorText (str_exn e)), (after_execute conn sql ^^ Suc k) w2)) \<and>
   (\<forall>start w1 e w2.
      time_time conn w = (start, w1) \<longrightarrow> execute conn sql w1 = (Inl e, w2) \<longrightarrow>
      gui_time_query conn sql w = ((None, Some (str_exn e)), w2)) \<and>
   (\<forall>start w1 rows w2 stop w3.
      time_time conn w = (start, w1) \<longrightarrow> execute conn sql w1 = (Inr rows, w2) \<longrightarrow>
      time_time conn w2 = (stop, w3) \<longrightarrow>
      gui_time_query conn sql w = ((Some (stop - start), None), w3))"
proof (intro conjI allI impI)
  show "warm_up conn sql True w = after_execute conn sql w"
    by (simp add: warm_up_def after_execute_def)
  show "warm_up conn sql False w = w" by (simp add: warm_up_def)
next
  fix start w2 stop w4
  assume pc: "perf_counter conn (warm_up conn sql warmup w) = (start, w2)"
    and ok: "\<forall>k < nat iterations. succeeds conn sql ((after_execute conn sql ^^ k) w2)"
    and pc2: "perf_counter conn ((after_execute conn sql ^^ nat iterations) w2) = (stop, w4)"
  from ok have "\<And>k. k < nat iterations \<Longrightarrow> succeeds conn sql ((after_execute conn sql ^^ k) w2)"
    by simp
  from execute_loop_ok[OF this, where results = None]
  show "time_query conn sql warmup iterations w =
        (Inr (Some ((stop - start) / of_int (max 1 iterations)),
              Results (if nat iterations = 0 then None
                 else Some (projr (fst (execute conn sql
                        ((after_execute conn sql ^^ (nat iterations - 1)) w2)))))), w4)"
    using pc pc2 by (simp add: time_query_def truediv_def max_one_nonzero)
next
  fix start w2 k e
  assume pc: "perf_counter conn (warm_up conn sql warmup w) = (start, w2)"
    and k: "k < nat iterations"
    and ok: "\<forall>j < k. succeeds conn sql ((after_execute conn sql ^^ j) w2)"
    and bad: "fst (execute conn sql ((after_execute conn sql ^^ k) w2)) = Inl e"
  from ok have "\<And>j. j < k \<Longrightarrow> succeeds conn sql ((after_execute conn sql ^^ j) w2)" by simp
  from execute_loop_fail[OF k this bad, where results = None]
  show "time_query conn sql warmup iterations w =
        (Inr (None, ErrorText (str_exn e)), (after_execute conn sql ^^ Suc k) w2)"
    using pc by (simp add: time_query_def)
next
  fix start w1 e w2
  assume "time_time conn w = (start, w1)" "execute conn sql w1 = (Inl e, w2)"
  then show "gui_time_query conn sql w = ((None, Some (str_exn e)), w2)"
    by (simp add: gui_time_query_def)
next
  fix start w1 rows w2 stop w3
  assume "time_time conn w = (start, w1)" "execute conn sql w1 = (Inr rows, w2)"
    "time_time conn w2 = (stop, w3)"
  then show "gui_time_query conn sql w = ((Some (stop - start), None), w3)"
    by (simp add: gui_time_query_def)
qed

theorem time_query_contract_witness:
  "time_query sample_conn ''SELECT name FROM customers'' True 2 0 =
     (Inr (Some (7 / 2), Results (Some [[''Cust_1''], [''Cust_2'']])), 11)"
proof -
  let ?q = "''SELECT name FROM customers''"
  have ex: "\<And>w. execute sample_conn ?q w = (Inr [[''Cust_1''], [''Cust_2'']], w + 3)"
    by (simp add: sample_conn_def sample_execute_def sample_tables_def)
  have a: "perf_counter sample_conn (warm_up sample_conn ?q True 0) = (3, 4)"
    by (simp add: warm_up_def ex) (simp add: sample_conn_def)
  have b: "\<forall>k < nat 2. succeeds sample_conn ?q ((after_execute sample_conn ?q ^^ k) 4)"
    by (simp add: succeeds_def ex)
  have c: "perf_counter sample_conn ((after_execute sample_conn ?q ^^ nat 2) 4) = (10, 11)"
    by (simp add: after_execute_def ex numeral_2_eq_2) (simp add: sample_conn_def)
  from time_query_contract[of sample_conn ?q 0 True 2] a b c
  have "time_query sample_conn ?q True 2 0 =
        (Inr (Some ((10 - 3) / of_int (max 1 2)),
              Results (if nat 2 = 0 then None
                 else Some (projr (fst (execute sample_conn ?q
                        ((after_execute sample_conn ?q ^^ (nat 2 - 1)) 4)))))), 11)"
    by blast
  then show ?thesis by (simp add: ex)
qed

text \<open>
  C7 as the spec states it fails for an iteration count below 1: with \<open>iterations = -1\<close>
  the statement is not executed and the elapsed tick is divided by 1, not by \<open>-1\<close>.
\<close>

theorem time_query_divisor_counterexample:
  "time_query sample_conn ''SELECT name FROM customers'' False (- 1) 5 =
     (Inr (Some ((6 - 5) / 1), Results None), 7) \<and>
   ((6 - 5) / 1 :: real) \<noteq> (6 - 5) / of_int (- 1)"
  by (simp add: time_query_def warm_up_def sample_conn_def truediv_def)

text \<open>
  C10.  \<open>time_query\<close> never divides by zero: for every iteration count the divisor
  \<open>max 1 iterations\<close> is not zero, the division does not raise, and \<open>time_query\<close> returns
  a pair.  For \<open>iterations \<le> 0\<close> no statement is executed between the two readings of the
  clock, and the duration returned is the elapsed time divided by 1.
\<close>

theorem time_query_never_divides_by_zero:
  "(\<exists>r w'. time_query conn sql warmup iterations w = (Inr r, w')) \<and>
   truediv elapsed (of_int (max 1 iterations)) = Inr (elapsed / of_int (max 1 iterations)) \<and>
   (iterations \<le> 0 \<longrightarrow>
      time_query conn sql warmup iterations w =
        (let (start, w2) = perf_counter conn (warm_up conn sql warmup w);
             (stop, w3) = perf_counter conn w2
         in (Inr (Some ((stop - start) / 1), Results None), w3)))"
  using time_query_total[of conn sql warmup iterations w]
  by (auto simp: time_query_def truediv_def max_one_nonzero Let_def split: prod.splits)

theorem time_query_never_divides_by_zero_witness:
  "time_query sample_conn ''SELECT name FROM customers'' True 0 0 =
     (Inr (Some 1, Results None), 5)"
  using time_query_never_divides_by_zero[of sample_conn "''SELECT name FROM customers''" True 0 0]
  by (simp add: warm_up_def sample_conn_def sample_execute_def sample_tables_def)

end
